theory Spec2Isabelle
  imports Complex_Main
begin

section \<open>Python values\<close>

text \<open>
  A Python \<open>str\<close> is a sequence of Unicode code points, so a text is a list of natural
  numbers and \<open>length\<close> counts what \<open>len\<close> counts. \<open>ustr\<close> reads an ASCII literal of
  the source.
\<close>

type_synonym pystr = "nat list"

definition ustr :: "string \<Rightarrow> pystr" where
  "ustr s = map of_char s"

datatype pyval = VStr pystr | VInt int

text \<open>
  An exception, with the text that \<open>str(e)\<close> gives: \<open>re.error\<close>, or an exception of an
  external collaborator. \<open>NotModelled\<close> marks an input that the model of a library
  function does not cover; no constant of the source leads there.
\<close>

datatype py_error = ReError pystr | ExternalError pystr | NotModelled

fun str_of_error :: "py_error \<Rightarrow> pystr" where
  "str_of_error (ReError msg) = msg"
| "str_of_error (ExternalError msg) = msg"
| "str_of_error NotModelled = []"

text \<open>A metadata dictionary, keyed by the literals of the source; \<open>d.get(k)\<close> is \<open>dict_get\<close>.\<close>

type_synonym pydict = "(string \<times> pyval) list"

definition dict_get :: "pydict \<Rightarrow> string \<Rightarrow> pyval option" where
  "dict_get d k = map_of d k"

text \<open>The slice \<open>xs[:n]\<close>: a negative \<open>n\<close> counts from the end.\<close>

definition py_slice_to :: "int \<Rightarrow> 'a list \<Rightarrow> 'a list" where
  "py_slice_to n xs =
     (if 0 \<le> n then take (nat n) xs else take (nat (int (length xs) + n)) xs)"

section \<open>knowledge\_base.py\<close>

record document =
  page_content :: pystr
  metadata :: pydict

text \<open>
  The vector store is external: \<open>similarity_search_with_score(query, k, filter)\<close> returns
  documents with their distances, or raises. A distance is a float; it is modelled as a
  real number, and the rounding of float arithmetic is not modelled.
\<close>

type_synonym vector_store =
  "pystr \<Rightarrow> int \<Rightarrow> pydict option \<Rightarrow> py_error + (document \<times> real) list"

text \<open>Each query sent to the vector store is recorded, so that what was asked can be stated.\<close>

record search_call =
  call_query :: pystr
  call_k :: int
  call_filter :: "pydict option"

definition search_similar ::
  "vector_store \<Rightarrow> pystr \<Rightarrow> int \<Rightarrow> pydict option \<Rightarrow> (document \<times> real) list \<times> search_call list" where
  "search_similar vs query k filter_dict =
     ((case vs query k filter_dict of Inr results \<Rightarrow> results | Inl e \<Rightarrow> []),
      [\<lparr>call_query = query, call_k = k, call_filter = filter_dict\<rparr>])"

definition search_by_document_type ::
  "vector_store \<Rightarrow> pystr \<Rightarrow> pystr \<Rightarrow> int \<Rightarrow> (document \<times> real) list \<times> search_call list" where
  "search_by_document_type vs query document_type k =
     search_similar vs query k (Some [(''document_type'', VStr document_type)])"

definition search_faqs ::
  "vector_store \<Rightarrow> pystr \<Rightarrow> int \<Rightarrow> (document \<times> real) list \<times> search_call list" where
  "search_faqs vs query k = search_by_document_type vs query (ustr ''faq'') k"

definition search_meeting_notes ::
  "vector_store \<Rightarrow> pystr \<Rightarrow> int \<Rightarrow> (document \<times> real) list \<times> search_call list" where
  "search_meeting_notes vs query k = search_by_document_type vs query (ustr ''meeting_notes'') k"

text \<open>
  A context item. The keys \<open>question\<close> and \<open>answer\<close> are set together, and only for a
  chunk whose section type is \<open>faq\<close>: \<open>faq_fields\<close> is \<open>None\<close> when they are absent.
\<close>

record context_item =
  content :: pystr
  item_metadata :: pydict
  relevance_score :: real
  document_type :: "pyval option"
  document_title :: "pyval option"
  section_type :: "pyval option"
  faq_fields :: "(pyval option \<times> pyval option) option"

definition to_context_item :: "document \<times> real \<Rightarrow> context_item" where
  "to_context_item r =
     (let doc = fst r; score = snd r in
      \<lparr>content = page_content doc,
       item_metadata = metadata doc,
       relevance_score = score,
       document_type = dict_get (metadata doc) ''document_type'',
       document_title = dict_get (metadata doc) ''document_title'',
       section_type = dict_get (metadata doc) ''section_type'',
       faq_fields =
         (if dict_get (metadata doc) ''section_type'' = Some (VStr (ustr ''faq''))
          then Some (dict_get (metadata doc) ''question'', dict_get (metadata doc) ''answer'')
          else None)\<rparr>)"

definition get_relevant_context ::
  "vector_store \<Rightarrow> pystr \<Rightarrow> int \<Rightarrow> real \<Rightarrow> context_item list \<times> search_call list" where
  "get_relevant_context vs query max_chunks relevance_threshold =
     (let (faq_results, calls1) = search_faqs vs query (max_chunks div 2 + 1);
          (meeting_results, calls2) = search_meeting_notes vs query (max_chunks div 2 + 1);
          all_results = sort_key snd (faq_results @ meeting_results);
          relevant_context =
            map to_context_item
              (filter (\<lambda>r. snd r \<le> relevance_threshold) (py_slice_to max_chunks all_results))
      in (relevant_context, calls1 @ calls2))"

section \<open>qa\_system.py\<close>

record source_info =
  src_document_type :: "pyval option"
  src_document_title :: "pyval option"
  src_section_type :: "pyval option"
  src_relevance_score :: real
  faq_question :: "pyval option option"

record answer_result =
  answer :: pystr
  sources :: "source_info list"
  context_used :: "context_item list"
  confidence :: real
  question :: pystr
  timestamp :: pystr

definition to_source_info :: "context_item \<Rightarrow> source_info" where
  "to_source_info item =
     \<lparr>src_document_type = document_type item,
      src_document_title = document_title item,
      src_section_type = section_type item,
      src_relevance_score = relevance_score item,
      faq_question =
        (if section_type item = Some (VStr (ustr ''faq''))
         then map_option fst (faq_fields item) else None)\<rparr>"

definition no_information_answer :: pystr where
  "no_information_answer =
     ustr ''I don't have enough information in my knowledge base to answer this question. Please check if the relevant documents have been added to the system.''"

text \<open>
  The body of the \<open>try\<close> block of \<open>answer_question\<close>. Lines 114 to 125 format the prompt
  and call the language model, an external collaborator: \<open>generate\<close> stands for them, from
  the context items and the question to the answer text or the exception raised on the
  way. \<open>now\<close> is what \<open>datetime.now().isoformat()\<close> returns. The relevance threshold is
  the default of \<open>get_relevant_context\<close>, 0.7.
\<close>

definition answer_body ::
  "vector_store \<Rightarrow> (context_item list \<Rightarrow> pystr \<Rightarrow> py_error + pystr) \<Rightarrow> pystr \<Rightarrow> pystr \<Rightarrow> int
     \<Rightarrow> py_error + answer_result" where
  "answer_body vs generate now q max_context_items =
     (let context_items = fst (get_relevant_context vs q max_context_items (7 / 10)) in
      if context_items = [] then
        Inr \<lparr>answer = no_information_answer, sources = [], context_used = [],
             confidence = 0, question = q, timestamp = now\<rparr>
      else
        (case generate context_items q of
           Inl e \<Rightarrow> Inl e
         | Inr reply \<Rightarrow>
             (let avg_relevance =
                    sum_list (map relevance_score context_items) / real (length context_items);
                  conf = max 0 (1 - avg_relevance)
              in Inr \<lparr>answer = reply, sources = map to_source_info context_items,
                      context_used = context_items, confidence = conf,
                      question = q, timestamp = now\<rparr>)))"

text \<open>The \<open>except Exception\<close> handler turns every exception of the body into an answer.\<close>

definition answer_question ::
  "vector_store \<Rightarrow> (context_item list \<Rightarrow> pystr \<Rightarrow> py_error + pystr) \<Rightarrow> pystr \<Rightarrow> pystr \<Rightarrow> int
     \<Rightarrow> answer_result" where
  "answer_question vs generate now q max_context_items =
     (case answer_body vs generate now q max_context_items of
        Inr result \<Rightarrow> result
      | Inl e \<Rightarrow>
          \<lparr>answer = ustr ''I encountered an error while processing your question: '' @ str_of_error e,
           sources = [], context_used = [], confidence = 0, question = q, timestamp = now\<rparr>)"

text \<open>A store for concrete runs: two FAQ chunks and one chunk of meeting notes.\<close>

definition demo_doc :: "string \<Rightarrow> string \<Rightarrow> document" where
  "demo_doc ty body =
     \<lparr>page_content = ustr body,
      metadata = [(''document_type'', VStr (ustr ty)), (''section_type'', VStr (ustr ''general''))]\<rparr>"

definition demo_store :: vector_store where
  "demo_store query k filter_dict =
     (if filter_dict = Some [(''document_type'', VStr (ustr ''faq''))]
      then Inr (take (nat k) [(demo_doc ''faq'' ''a'', 1 / 10), (demo_doc ''faq'' ''c'', 9 / 10)])
      else if filter_dict = Some [(''document_type'', VStr (ustr ''meeting_notes''))]
      then Inr (take (nat k) [(demo_doc ''meeting_notes'' ''b'', 3 / 10)])
      else Inr [])"

definition empty_store :: vector_store where
  "empty_store query k filter_dict = Inr []"

definition echo_generate :: "context_item list \<Rightarrow> pystr \<Rightarrow> py_error + pystr" where
  "echo_generate items q = Inr q"

section \<open>Regular expressions, as Python's re module matches them\<close>

text \<open>
  The patterns of the source are written as expressions of the datatype \<open>re\<close>, and \<open>m\<close>
  matches them the way the backtracking matcher of \<open>re\<close> does. Two tables of the Unicode
  database are not part of the repository and are parameters: which code points above
  ASCII are alphanumeric (for \<open>\w\<close>) and which are decimal digits (for \<open>\d\<close>).
\<close>

record unicode_db =
  u_isalnum :: "nat \<Rightarrow> bool"
  u_isdecimal :: "nat \<Rightarrow> bool"

text \<open>The flags \<open>re.MULTILINE\<close>, \<open>re.DOTALL\<close> and \<open>re.IGNORECASE\<close>.\<close>

record re_flags =
  multiline :: bool
  dotall :: bool
  ignorecase :: bool

text \<open>
  Whitespace, for \<open>\s\<close> and for \<open>str.strip\<close>: the code points on which \<open>str.isspace\<close>
  holds.
\<close>

definition is_space :: "nat \<Rightarrow> bool" where
  "is_space c =
     (c \<in> set [9, 10, 11, 12, 13, 28, 29, 30, 31, 32, 133, 160, 5760, 8232, 8233, 8239, 8287, 12288]
      \<or> (8192 \<le> c \<and> c \<le> 8202))"

definition ascii_alnum :: "nat \<Rightarrow> bool" where
  "ascii_alnum c = (48 \<le> c \<and> c \<le> 57 \<or> 65 \<le> c \<and> c \<le> 90 \<or> 97 \<le> c \<and> c \<le> 122)"

definition is_word :: "unicode_db \<Rightarrow> nat \<Rightarrow> bool" where
  "is_word db c = (c = 95 \<or> (if c < 128 then ascii_alnum c else u_isalnum db c))"

definition is_digit :: "unicode_db \<Rightarrow> nat \<Rightarrow> bool" where
  "is_digit db c = (if c < 128 then 48 \<le> c \<and> c \<le> 57 else u_isdecimal db c)"

text \<open>
  A literal of a pattern against a character of the text. The literals of the source's
  patterns that are matched under \<open>re.IGNORECASE\<close> are ASCII: a letter matches both its
  cases, and \<open>i\<close>, \<open>s\<close> and \<open>k\<close> also match the code points that Unicode folds to
  them (U+0130 and U+0131, U+017F, U+212A).
\<close>

definition ascii_lower :: "nat \<Rightarrow> nat" where
  "ascii_lower c = (if 65 \<le> c \<and> c \<le> 90 then c + 32 else c)"

definition lit_match :: "re_flags \<Rightarrow> nat \<Rightarrow> nat \<Rightarrow> bool" where
  "lit_match fl p c =
     (if ignorecase fl
      then ascii_lower c = ascii_lower p \<or>
           (ascii_lower p = 105 \<and> (c = 304 \<or> c = 305)) \<or>
           (ascii_lower p = 115 \<and> c = 383) \<or>
           (ascii_lower p = 107 \<and> c = 8490)
      else c = p)"

text \<open>
  An item of a character set, and a one-character pattern: an item, the dot (which matches
  a newline only under \<open>re.DOTALL\<close>), a set \<open>[...]\<close> or a negated set \<open>[^...]\<close>.
\<close>

datatype atom = Lit nat | Space | Digit | Word

fun atom_match :: "re_flags \<Rightarrow> unicode_db \<Rightarrow> atom \<Rightarrow> nat \<Rightarrow> bool" where
  "atom_match fl db (Lit p) c = lit_match fl p c"
| "atom_match fl db Space c = is_space c"
| "atom_match fl db Digit c = is_digit db c"
| "atom_match fl db Word c = is_word db c"

datatype cclass = Atom atom | Dot | OneOf "atom list" | NoneOf "atom list"

fun cls_match :: "re_flags \<Rightarrow> unicode_db \<Rightarrow> cclass \<Rightarrow> nat \<Rightarrow> bool" where
  "cls_match fl db (Atom a) c = atom_match fl db a c"
| "cls_match fl db Dot c = (dotall fl \<or> c \<noteq> 10)"
| "cls_match fl db (OneOf as) c = list_ex (\<lambda>a. atom_match fl db a c) as"
| "cls_match fl db (NoneOf as) c = (\<not> list_ex (\<lambda>a. atom_match fl db a c) as)"

text \<open>
  Expressions. \<open>Star True r\<close> is the greedy \<open>r*\<close> and \<open>Star False r\<close> the lazy \<open>r*?\<close>;
  \<open>Group n r\<close> is the capturing group number \<open>n\<close>; \<open>Look r\<close> is the lookahead
  \<open>(?=r)\<close>; \<open>Bol\<close> is \<open>^\<close> and \<open>EndZ\<close> is \<open>\Z\<close>.
\<close>

datatype re =
    Sym cclass
  | Eps
  | Seq re re
  | Alt re re
  | Star bool re
  | Group nat re
  | Look re
  | Bol
  | EndZ

text \<open>
  A state of the matcher: the character before the position (none at the start of the
  text), the text from the position on, and the groups captured so far, the latest first.
\<close>

record mstate =
  m_prev :: "nat option"
  m_rest :: pystr
  m_caps :: "(nat \<times> pystr) list"

text \<open>
  \<open>m fl db r st\<close> lists the states in which a match of \<open>r\<close> that starts in \<open>st\<close> can end,
  in the order in which the backtracking matcher tries them: the first is the match that
  \<open>re\<close> finds. A greedy star tries one more round before it tries to stop, a lazy one the
  other way round; a round that consumes nothing is not repeated.
\<close>

function m :: "re_flags \<Rightarrow> unicode_db \<Rightarrow> re \<Rightarrow> mstate \<Rightarrow> mstate list" where
  "m fl db (Sym c) st =
     (case m_rest st of
        [] \<Rightarrow> []
      | x # xs \<Rightarrow> if cls_match fl db c x then [st\<lparr>m_prev := Some x, m_rest := xs\<rparr>] else [])"
| "m fl db Eps st = [st]"
| "m fl db (Seq a b) st = concat (map (m fl db b) (m fl db a st))"
| "m fl db (Alt a b) st = m fl db a st @ m fl db b st"
| "m fl db (Star greedy r) st =
     (let more = concat (map (\<lambda>st'. if length (m_rest st') < length (m_rest st)
                                      then m fl db (Star greedy r) st' else [])
                             (m fl db r st))
      in if greedy then more @ [st] else st # more)"
| "m fl db (Group n r) st =
     map (\<lambda>st'. st'\<lparr>m_caps := (n, take (length (m_rest st) - length (m_rest st')) (m_rest st)) # m_caps st'\<rparr>)
         (m fl db r st)"
| "m fl db (Look r) st = (case m fl db r st of [] \<Rightarrow> [] | st' # _ \<Rightarrow> [st\<lparr>m_caps := m_caps st'\<rparr>])"
| "m fl db Bol st = (if m_prev st = None \<or> (multiline fl \<and> m_prev st = Some 10) then [st] else [])"
| "m fl db EndZ st = (if m_rest st = [] then [st] else [])"
  by pat_completeness auto
termination
  by (relation "inv_image (less_than <*lex*> less_than)
        (\<lambda>(fl, db, r, st). (size r, length (m_rest st)))") auto

text \<open>
  \<open>findall\<close> scans the text from left to right. At each position the first result of
  \<open>m\<close> is the match; the scan goes on where the match ended, or one character further
  when nothing matched. A match gives the texts of its groups, \<open>''\<close> for a group that
  took no part.
\<close>

definition groups :: "nat \<Rightarrow> (nat \<times> pystr) list \<Rightarrow> pystr list" where
  "groups n cs = map (\<lambda>i. case map_of cs i of None \<Rightarrow> [] | Some s \<Rightarrow> s) [1..<Suc n]"

function findall_from ::
  "re_flags \<Rightarrow> unicode_db \<Rightarrow> re \<Rightarrow> nat \<Rightarrow> nat option \<Rightarrow> pystr \<Rightarrow> pystr list list" where
  "findall_from fl db r n p s =
     (case m fl db r \<lparr>m_prev = p, m_rest = s, m_caps = []\<rparr> of
        st # _ \<Rightarrow>
          groups n (m_caps st) #
            (if length (m_rest st) < length s then findall_from fl db r n (m_prev st) (m_rest st)
             else (case s of [] \<Rightarrow> [] | c # cs \<Rightarrow> findall_from fl db r n (Some c) cs))
      | [] \<Rightarrow> (case s of [] \<Rightarrow> [] | c # cs \<Rightarrow> findall_from fl db r n (Some c) cs))"
  by pat_completeness auto
termination
  by (relation "measure (\<lambda>(fl, db, r, n, p, s). length s)") auto

definition findall :: "re_flags \<Rightarrow> unicode_db \<Rightarrow> re \<Rightarrow> nat \<Rightarrow> pystr \<Rightarrow> pystr list list" where
  "findall fl db r n s = findall_from fl db r n None s"

text \<open>
  \<open>re.sub\<close> with a replacement text that holds no group reference: the same scan, each
  match replaced. No pattern of the source matches the empty text; on an empty match both
  scans move one character on.
\<close>

function sub_from ::
  "re_flags \<Rightarrow> unicode_db \<Rightarrow> re \<Rightarrow> pystr \<Rightarrow> nat option \<Rightarrow> pystr \<Rightarrow> pystr" where
  "sub_from fl db r repl p s =
     (case m fl db r \<lparr>m_prev = p, m_rest = s, m_caps = []\<rparr> of
        st # _ \<Rightarrow>
          repl @
            (if length (m_rest st) < length s then sub_from fl db r repl (m_prev st) (m_rest st)
             else (case s of [] \<Rightarrow> [] | c # cs \<Rightarrow> c # sub_from fl db r repl (Some c) cs))
      | [] \<Rightarrow> (case s of [] \<Rightarrow> [] | c # cs \<Rightarrow> c # sub_from fl db r repl (Some c) cs))"
  by pat_completeness auto
termination
  by (relation "measure (\<lambda>(fl, db, r, repl, p, s). length s)") auto

definition re_sub :: "re_flags \<Rightarrow> unicode_db \<Rightarrow> re \<Rightarrow> pystr \<Rightarrow> pystr \<Rightarrow> pystr" where
  "re_sub fl db r repl s = sub_from fl db r repl None s"

text \<open>Shorthands to write the patterns: a character, a newline, \<open>r+\<close>, \<open>r?\<close>, a sequence, an alternation, a literal text.\<close>

abbreviation Chr :: "char \<Rightarrow> re" where
  "Chr c \<equiv> Sym (Atom (Lit (of_char c)))"

abbreviation NL :: re where
  "NL \<equiv> Sym (Atom (Lit 10))"

abbreviation Plus :: "bool \<Rightarrow> re \<Rightarrow> re" where
  "Plus greedy r \<equiv> Seq r (Star greedy r)"

abbreviation Opt :: "re \<Rightarrow> re" where
  "Opt r \<equiv> Alt r Eps"

fun seqs :: "re list \<Rightarrow> re" where
  "seqs [] = Eps"
| "seqs [r] = r"
| "seqs (r # rs) = Seq r (seqs rs)"

fun alts :: "re list \<Rightarrow> re" where
  "alts [] = Eps"
| "alts [r] = r"
| "alts (r # rs) = Alt r (alts rs)"

definition lits :: "string \<Rightarrow> re" where
  "lits s = seqs (map Chr s)"

text \<open>
  The flags of a call that passes none, and a database for concrete runs in which no code
  point above ASCII is alphanumeric or a digit.
\<close>

definition no_flags :: re_flags where
  "no_flags = \<lparr>multiline = False, dotall = False, ignorecase = False\<rparr>"

definition ascii_db :: unicode_db where
  "ascii_db = \<lparr>u_isalnum = (\<lambda>c. False), u_isdecimal = (\<lambda>c. False)\<rparr>"

text \<open>
  The two patterns of \<open>_extract_faq_sections\<close>, both used with
  \<open>re.MULTILINE | re.DOTALL\<close>:
  \<^verbatim>\<open>(?:^|\n)(.+\?)\s*\n(.*?)(?=\n.*\?|\n\n|\Z)\<close> and
  \<^verbatim>\<open>(?:^|\n)(?:Q:|Question:)\s*(.+?)\n(?:A:|Answer:)\s*(.*?)(?=\n(?:Q:|Question:)|\n\n|\Z)\<close>.
\<close>

definition faq_flags :: re_flags where
  "faq_flags = \<lparr>multiline = True, dotall = True, ignorecase = False\<rparr>"

definition faq_pattern :: re where
  "faq_pattern =
     seqs [Alt Bol NL,
           Group 1 (Seq (Plus True (Sym Dot)) (Chr CHR ''?'')),
           Star True (Sym (Atom Space)),
           NL,
           Group 2 (Star False (Sym Dot)),
           Look (alts [seqs [NL, Star True (Sym Dot), Chr CHR ''?''], Seq NL NL, EndZ])]"

definition qa_pattern :: re where
  "qa_pattern =
     seqs [Alt Bol NL,
           Alt (lits ''Q:'') (lits ''Question:''),
           Star True (Sym (Atom Space)),
           Group 1 (Plus False (Sym Dot)),
           NL,
           Alt (lits ''A:'') (lits ''Answer:''),
           Star True (Sym (Atom Space)),
           Group 2 (Star False (Sym Dot)),
           Look (alts [Seq NL (Alt (lits ''Q:'') (lits ''Question:'')), Seq NL NL, EndZ])]"

text \<open>The first element of a list on which a continuation succeeds.\<close>

fun first_match :: "('a \<Rightarrow> 'b option) \<Rightarrow> 'a list \<Rightarrow> 'b option" where
  "first_match k [] = None"
| "first_match k (x # xs) = (case k x of Some y \<Rightarrow> Some y | None \<Rightarrow> first_match k xs)"

text \<open>
  Evaluation. A stack of frames stands for the work left after the current expression;
  \<open>run\<close> is the first result of the matcher that the whole stack accepts.
\<close>

datatype frame = FRe re | FLoop bool re nat | FCap nat pystr

primrec run :: "re_flags \<Rightarrow> unicode_db \<Rightarrow> frame list \<Rightarrow> mstate \<Rightarrow> mstate option" where
  "run fl db [] = Some"
| "run fl db (f # ks) =
     (case f of
        FRe r \<Rightarrow> (\<lambda>st. first_match (run fl db ks) (m fl db r st))
      | FLoop greedy r n \<Rightarrow>
          (\<lambda>st. if length (m_rest st) < n
                then first_match (run fl db ks) (m fl db (Star greedy r) st) else None)
      | FCap n s0 \<Rightarrow>
          (\<lambda>st. run fl db ks
                 (st\<lparr>m_caps := (n, take (length s0 - length (m_rest st)) s0) # m_caps st\<rparr>)))"

section \<open>document\_processor.py\<close>

text \<open>
  A pattern that is one character set, \<open>[...]\<close>, as \<open>re\<close> parses it: after an optional
  \<open>^\<close> the items run to the first \<open>]\<close> that is not the first item, and a pattern that
  ends before is refused with \<open>re.error\<close>. An item is \<open>\w\<close>, \<open>\s\<close>, \<open>\d\<close>, an
  escaped character or a character. Ranges and the other escapes are not modelled.
\<close>

definition unterminated_set :: py_error where
  "unterminated_set = ReError (ustr ''unterminated character set at position 0'')"

definition class_escape :: "nat \<Rightarrow> py_error + atom" where
  "class_escape c =
     (if c = of_char CHR ''w'' then Inr Word
      else if c = of_char CHR ''s'' then Inr Space
      else if c = of_char CHR ''d'' then Inr Digit
      else if ascii_alnum c \<or> 128 \<le> c then Inl NotModelled
      else Inr (Lit c))"

definition item :: "atom \<Rightarrow> pystr \<Rightarrow> py_error + atom list \<times> pystr \<Rightarrow> py_error + atom list \<times> pystr" where
  "item a cs others =
     (case cs of
        [] \<Rightarrow> others
      | c # _ \<Rightarrow>
          if c = 45 then Inl NotModelled
          else (case others of Inl e \<Rightarrow> Inl e | Inr r \<Rightarrow> Inr (a # fst r, snd r)))"

fun parse_items :: "bool \<Rightarrow> pystr \<Rightarrow> py_error + atom list \<times> pystr" where
  "parse_items nonempty [] = Inl unterminated_set"
| "parse_items nonempty (c # cs) =
     (if c = 93 \<and> nonempty then Inr ([], cs)
      else if c = 92 then
        (case cs of
           [] \<Rightarrow> Inl NotModelled
         | e # cs' \<Rightarrow>
             (case class_escape e of
                Inl err \<Rightarrow> Inl err
              | Inr a \<Rightarrow> item a cs' (parse_items True cs')))
      else item (Lit c) cs (parse_items True cs))"

definition compile_set :: "pystr \<Rightarrow> py_error + cclass" where
  "compile_set p =
     (case p of
        [] \<Rightarrow> Inl NotModelled
      | c # cs \<Rightarrow>
          if c \<noteq> 91 then Inl NotModelled
          else
            (let negate = (case cs of [] \<Rightarrow> False | d # _ \<Rightarrow> d = 94);
                 body = (if negate then tl cs else cs)
             in case parse_items False body of
                  Inl e \<Rightarrow> Inl e
                | Inr r \<Rightarrow>
                    if snd r \<noteq> [] then Inl NotModelled
                    else Inr (if negate then NoneOf (fst r) else OneOf (fst r))))"

definition re_sub_set ::
  "re_flags \<Rightarrow> unicode_db \<Rightarrow> pystr \<Rightarrow> pystr \<Rightarrow> pystr \<Rightarrow> py_error + pystr" where
  "re_sub_set fl db pattern repl s =
     (case compile_set pattern of
        Inl e \<Rightarrow> Inl e
      | Inr c \<Rightarrow> Inr (re_sub fl db (Sym c) repl s))"

text \<open>\<open>str.strip()\<close>: the text without its leading and trailing whitespace.\<close>

definition strip :: "pystr \<Rightarrow> pystr" where
  "strip s = rev (dropWhile is_space (rev (dropWhile is_space s)))"

text \<open>
  The patterns of lines 38, 41 and 42, as the file has them. A string literal of
  Isabelle holds no backslash: \<open>esc s\<close> is a backslash followed by \<open>s\<close>. The pattern of
  line 38 is \<^verbatim>\<open>[^\w\s\-.,!?():"\'/@#$%&*+=\[\]{}|\\`~<>]\<close>. The characters between the
  brackets of lines 41 and 42 are the ASCII quotes: line 41 is \<^verbatim>\<open>[""]\<close>, and line 42 is
  the raw string \<^verbatim>\<open>r'['\<close> followed by the string \<^verbatim>\<open>']'\<close>, which Python joins
  to \<^verbatim>\<open>[]\<close>.
\<close>

definition esc :: "string \<Rightarrow> pystr" where
  "esc s = 92 # ustr s"

definition special_pattern :: pystr where
  "special_pattern =
     ustr ''[^'' @ esc ''w'' @ esc ''s'' @ esc ''-'' @ ustr ''.,!?():\"'' @ [92, 39] @
     ustr ''/@#$%&*+='' @ esc ''['' @ esc '']'' @ ustr ''{}|'' @ [92, 92] @ ustr ''`~<>]''"

definition double_quote_pattern :: pystr where
  "double_quote_pattern = ustr ''[\"\"]''"

definition single_quote_pattern :: pystr where
  "single_quote_pattern = ustr ''[]''"

text \<open>\<open>clean_steps\<close> is the text that reaches line 42: the substitutions of lines 32 to 41.\<close>

definition clean_steps :: "unicode_db \<Rightarrow> pystr \<Rightarrow> py_error + pystr" where
  "clean_steps db s =
     (let t1 = re_sub no_flags db (Plus True (Sym (Atom Space))) (ustr '' '') s;
          t2 = re_sub no_flags db (seqs [NL, Star True (Sym (Atom Space)), NL]) [10] t1
      in case re_sub_set no_flags db special_pattern [] t2 of
           Inl e \<Rightarrow> Inl e
         | Inr t3 \<Rightarrow> re_sub_set no_flags db double_quote_pattern [34] t3)"

text \<open>
  \<open>clean_text\<close>: line 42 compiles its pattern, substitutes, and line 44 strips the result.
\<close>

definition clean_text :: "unicode_db \<Rightarrow> pystr \<Rightarrow> py_error + pystr" where
  "clean_text db s =
     (case clean_steps db s of
        Inl e \<Rightarrow> Inl e
      | Inr t4 \<Rightarrow>
          (case re_sub_set no_flags db single_quote_pattern [39] t4 of
             Inl e \<Rightarrow> Inl e
           | Inr t5 \<Rightarrow> Inr (strip t5)))"

text \<open>
  A section: the dictionary that the extraction builds. The keys \<open>question\<close> and \<open>answer\<close>
  are set together, for a FAQ section only: \<open>sec_qa\<close>.
\<close>

record doc_section =
  sec_content :: pystr
  sec_type :: pystr
  sec_title :: pystr
  sec_qa :: "(pystr \<times> pystr) option"

definition general_section :: "pystr \<Rightarrow> string \<Rightarrow> doc_section" where
  "general_section s title =
     \<lparr>sec_content = s, sec_type = ustr ''general'', sec_title = ustr title, sec_qa = None\<rparr>"

text \<open>
  The loop over the matches of a pattern with two groups: a section for each match whose
  question and answer are not empty once stripped.
\<close>

definition faq_section :: "pystr list \<Rightarrow> doc_section list" where
  "faq_section g =
     (case g of
        [q, a] \<Rightarrow>
          (let question = strip q; answer = strip a in
           if question \<noteq> [] \<and> answer \<noteq> [] then
             [\<lparr>sec_content = ustr ''Q: '' @ question @ [10] @ ustr ''A: '' @ answer,
               sec_type = ustr ''faq'', sec_title = question,
               sec_qa = Some (question, answer)\<rparr>]
           else [])
      | _ \<Rightarrow> [])"

text \<open>\<open>_extract_faq_sections\<close>: the primary pattern, then the labelled one, then the fallback.\<close>

definition extract_faq_sections :: "unicode_db \<Rightarrow> pystr \<Rightarrow> doc_section list" where
  "extract_faq_sections db s =
     (let sections = concat (map faq_section (findall faq_flags db faq_pattern 2 s));
          sections = (if sections = []
                      then concat (map faq_section (findall faq_flags db qa_pattern 2 s))
                      else sections)
      in if sections = [] then [general_section s ''FAQ Content''] else sections)"

text \<open>
  The patterns of \<open>_extract_meeting_sections\<close>. The three of \<open>section_patterns\<close> are used
  with \<open>re.MULTILINE | re.DOTALL | re.IGNORECASE\<close>; with \<open>W\<close> for the header words
  \<^verbatim>\<open>(?:agenda|topics?|discussion|action items?|decisions?|notes?|summary)\<close> they are
  \<^verbatim>\<open>(?:^|\n)(W.*?):\s*\n(.*?)(?=\nW|\n\n|\Z)\<close>,
  \<^verbatim>\<open>(?:^|\n)(\d+\.\s*.+?)\n(.*?)(?=\n\d+\.|\n\n|\Z)\<close> and
  \<^verbatim>\<open>(?:^|\n)(#{1,3}\s*.+?)\n(.*?)(?=\n#{1,3}|\n\n|\Z)\<close>. The bullet pattern is used with
  \<open>re.MULTILINE\<close>: \<^verbatim>\<open>(?:^|\n)((?:[-*B]\s*.+?)(?:\n[-*B].*)*)\<close>, where \<open>B\<close> stands for the
  bullet U+2022.
\<close>

definition meeting_flags :: re_flags where
  "meeting_flags = \<lparr>multiline = True, dotall = True, ignorecase = True\<rparr>"

definition bullet_flags :: re_flags where
  "bullet_flags = \<lparr>multiline = True, dotall = False, ignorecase = False\<rparr>"

definition header_words :: re where
  "header_words =
     alts [lits ''agenda'',
           Seq (lits ''topic'') (Opt (Chr CHR ''s'')),
           lits ''discussion'',
           Seq (lits ''action item'') (Opt (Chr CHR ''s'')),
           Seq (lits ''decision'') (Opt (Chr CHR ''s'')),
           Seq (lits ''note'') (Opt (Chr CHR ''s'')),
           lits ''summary'']"

definition hashes :: re where
  "hashes = Seq (Chr CHR ''#'') (Opt (Seq (Chr CHR ''#'') (Opt (Chr CHR ''#''))))"

definition section_patterns :: "re list" where
  "section_patterns =
     [seqs [Alt Bol NL,
            Group 1 (Seq header_words (Star False (Sym Dot))),
            Chr CHR '':'',
            Star True (Sym (Atom Space)),
            NL,
            Group 2 (Star False (Sym Dot)),
            Look (alts [Seq NL header_words, Seq NL NL, EndZ])],
      seqs [Alt Bol NL,
            Group 1 (seqs [Plus True (Sym (Atom Digit)), Chr CHR ''.'',
                           Star True (Sym (Atom Space)), Plus False (Sym Dot)]),
            NL,
            Group 2 (Star False (Sym Dot)),
            Look (alts [seqs [NL, Plus True (Sym (Atom Digit)), Chr CHR ''.''], Seq NL NL, EndZ])],
      seqs [Alt Bol NL,
            Group 1 (seqs [hashes, Star True (Sym (Atom Space)), Plus False (Sym Dot)]),
            NL,
            Group 2 (Star False (Sym Dot)),
            Look (alts [Seq NL hashes, Seq NL NL, EndZ])]]"

definition bullet_set :: cclass where
  "bullet_set = OneOf [Lit 45, Lit 42, Lit 8226]"

definition bullet_pattern :: re where
  "bullet_pattern =
     seqs [Alt Bol NL,
           Group 1 (seqs [Sym bullet_set, Star True (Sym (Atom Space)), Plus False (Sym Dot),
                          Star True (seqs [NL, Sym bullet_set, Star True (Sym Dot)])])]"

definition meeting_section :: "pystr list \<Rightarrow> doc_section list" where
  "meeting_section g =
     (case g of
        [t, c] \<Rightarrow>
          (let title = strip t; body = strip c in
           if title \<noteq> [] \<and> body \<noteq> [] then
             [\<lparr>sec_content = title @ [10] @ body, sec_type = ustr ''meeting_section'',
               sec_title = title, sec_qa = None\<rparr>]
           else [])
      | _ \<Rightarrow> [])"

definition bullet_section :: "pystr list \<Rightarrow> doc_section list" where
  "bullet_section g =
     (case g of
        [b] \<Rightarrow>
          (let body = strip b in
           if body \<noteq> [] then
             [\<lparr>sec_content = body, sec_type = ustr ''meeting_bullet'',
               sec_title = take 50 (takeWhile (\<lambda>c. c \<noteq> 10) body) @ ustr ''...'',
               sec_qa = None\<rparr>]
           else [])
      | _ \<Rightarrow> [])"

text \<open>
  \<open>_extract_meeting_sections\<close>: the matches of all three patterns, then the bullet groups,
  then the fallback.
\<close>

definition extract_meeting_sections :: "unicode_db \<Rightarrow> pystr \<Rightarrow> doc_section list" where
  "extract_meeting_sections db s =
     (let sections =
            concat (map (\<lambda>pattern. concat (map meeting_section (findall meeting_flags db pattern 2 s)))
                        section_patterns);
          sections = (if sections = []
                      then concat (map bullet_section (findall bullet_flags db bullet_pattern 1 s))
                      else sections)
      in if sections = [] then [general_section s ''Meeting Notes''] else sections)"

definition extract_sections :: "unicode_db \<Rightarrow> pystr \<Rightarrow> pystr \<Rightarrow> doc_section list" where
  "extract_sections db s doc_type =
     (if doc_type = ustr ''faq'' then extract_faq_sections db s
      else if doc_type = ustr ''meeting_notes'' then extract_meeting_sections db s
      else [general_section s ''Content''])"

text \<open>
  \<open>process_document\<close>. The document is a dictionary of texts; \<open>split_text\<close> is the text
  splitter of the \<open>langchain\<close> library and \<open>count_tokens\<close> the length of the tokenizer's
  encoding, both external.
\<close>

definition get_or :: "(string \<times> pystr) list \<Rightarrow> string \<Rightarrow> pystr \<Rightarrow> pystr" where
  "get_or d k dflt = (case map_of d k of None \<Rightarrow> dflt | Some v \<Rightarrow> v)"

definition section_chunks ::
  "(pystr \<Rightarrow> pystr list) \<Rightarrow> (pystr \<Rightarrow> nat) \<Rightarrow> pystr \<Rightarrow> pystr \<Rightarrow> pystr \<Rightarrow> doc_section \<Rightarrow> document list" where
  "section_chunks split_text count_tokens doc_id title doc_type sec =
     (let chunks = split_text (sec_content sec) in
      map (\<lambda>(i, chunk_text).
             \<lparr>page_content = chunk_text,
              metadata =
                [(''document_id'', VStr doc_id),
                 (''document_title'', VStr title),
                 (''document_type'', VStr doc_type),
                 (''section_title'', VStr (sec_title sec)),
                 (''section_type'', VStr (sec_type sec)),
                 (''chunk_index'', VInt (int i)),
                 (''total_chunks'', VInt (int (length chunks))),
                 (''token_count'', VInt (int (count_tokens chunk_text)))] @
                (case sec_qa sec of
                   Some qa \<Rightarrow>
                     if sec_type sec = ustr ''faq''
                     then [(''question'', VStr (fst qa)), (''answer'', VStr (snd qa))] else []
                 | None \<Rightarrow> [])\<rparr>)
          (enumerate 0 chunks))"

definition process_document ::
  "unicode_db \<Rightarrow> (pystr \<Rightarrow> pystr list) \<Rightarrow> (pystr \<Rightarrow> nat) \<Rightarrow> (string \<times> pystr) list
     \<Rightarrow> py_error + document list" where
  "process_document db split_text count_tokens d =
     (let body = get_or d ''content'' [];
          doc_type = get_or d ''type'' (ustr ''general'');
          title = get_or d ''title'' (ustr ''Untitled'');
          doc_id = get_or d ''document_id'' []
      in case clean_text db body of
           Inl e \<Rightarrow> Inl e
         | Inr cleaned_content \<Rightarrow>
             Inr (concat (map (section_chunks split_text count_tokens doc_id title doc_type)
                              (extract_sections db cleaned_content doc_type))))"

section \<open>Notions for the statements and the proofs\<close>

text \<open>The text with each run of whitespace replaced: what line 32 computes.\<close>

function collapse :: "pystr \<Rightarrow> pystr \<Rightarrow> pystr" where
  "collapse repl [] = []"
| "collapse repl (c # cs) =
     (if is_space c then repl @ collapse repl (dropWhile is_space cs) else c # collapse repl cs)"
  by pat_completeness auto
termination
  by (relation "measure (\<lambda>(repl, s). length s)") (auto simp: length_dropWhile_le less_Suc_eq_le)

text \<open>The characters that line 38 keeps.\<close>

definition punctuation :: pystr where
  "punctuation = ustr ''-.,!?():\"'' @ [39] @ ustr ''/@#$%&*+=[]{}|'' @ [92] @ ustr ''`~<>''"

definition allowed_char :: "unicode_db \<Rightarrow> nat \<Rightarrow> bool" where
  "allowed_char db c = (is_word db c \<or> is_space c \<or> c \<in> set punctuation)"

definition special_set :: cclass where
  "special_set =
     NoneOf [Word, Space, Lit 45, Lit 46, Lit 44, Lit 33, Lit 63, Lit 40, Lit 41,
        Lit 58, Lit 34, Lit 39, Lit 47, Lit 64, Lit 35, Lit 36, Lit 37,
        Lit 38, Lit 42, Lit 43, Lit 61, Lit 91, Lit 93, Lit 123, Lit 125,
        Lit 124, Lit 92, Lit 96, Lit 126, Lit 60, Lit 62]"

text \<open>
  A question line: a question mark that is followed by a newline, with nothing but
  whitespace between them. This is a line that ends in \<open>?\<close>, trailing whitespace aside,
  and that is not the last line of the text.
\<close>

fun has_question_line :: "pystr \<Rightarrow> bool" where
  "has_question_line [] = False"
| "has_question_line (c # cs) =
     ((c = 63 \<and> 10 \<in> set (takeWhile is_space cs)) \<or> has_question_line cs)"

text \<open>
  A label pair: a line that starts with \<open>Q:\<close> or \<open>Question:\<close>, and after it a line
  that starts with \<open>A:\<close> or \<open>Answer:\<close>. \<open>has_label_pair p s\<close> looks for one in \<open>s\<close>,
  where \<open>p\<close> is the character before \<open>s\<close>.
\<close>

definition label_start :: "pystr \<Rightarrow> bool" where
  "label_start s = (take 2 s = ustr ''Q:'' \<or> take 9 s = ustr ''Question:'')"

definition answer_label_start :: "pystr \<Rightarrow> bool" where
  "answer_label_start s = (take 2 s = ustr ''A:'' \<or> take 7 s = ustr ''Answer:'')"

fun answer_line_after :: "pystr \<Rightarrow> bool" where
  "answer_line_after [] = False"
| "answer_line_after (c # cs) = ((c = 10 \<and> answer_label_start cs) \<or> answer_line_after cs)"

fun has_label_pair :: "nat option \<Rightarrow> pystr \<Rightarrow> bool" where
  "has_label_pair p [] = False"
| "has_label_pair p (c # cs) =
     (((p = None \<or> p = Some 10) \<and> label_start (c # cs) \<and> answer_line_after (c # cs)) \<or>
      has_label_pair (Some c) cs)"

section \<open>Retrieval and answering: what is proved\<close>

lemma filter_take_sorted:
  "sorted (map snd xs) \<Longrightarrow>
   filter (\<lambda>r. snd r \<le> (t::real)) (take n xs) = take n (filter (\<lambda>r. snd r \<le> t) xs)"
proof (induction xs arbitrary: n)
  case Nil
  then show ?case by simp
next
  case (Cons x xs)
  show ?case
  proof (cases n)
    case 0
    then show ?thesis by simp
  next
    case (Suc m)
    show ?thesis
    proof (cases "snd x \<le> t")
      case True
      with Cons Suc show ?thesis by simp
    next
      case False
      with Cons.prems have "\<forall>y\<in>set xs. \<not> snd y \<le> t" by auto
      then have "filter (\<lambda>r. snd r \<le> t) xs = []" "filter (\<lambda>r. snd r \<le> t) (take m xs) = []"
        by (auto simp: filter_empty_conv dest: in_set_takeD)
      with False Suc show ?thesis by simp
    qed
  qed
qed

lemma demo_faq:
  "search_faqs demo_store (ustr ''q'') (5 div 2 + 1) =
     ([(demo_doc ''faq'' ''a'', 1 / 10), (demo_doc ''faq'' ''c'', 9 / 10)],
      [\<lparr>call_query = ustr ''q'', call_k = 3,
        call_filter = Some [(''document_type'', VStr (ustr ''faq''))]\<rparr>])"
  by (simp add: search_faqs_def search_by_document_type_def search_similar_def demo_store_def)

lemma demo_meeting:
  "search_meeting_notes demo_store (ustr ''q'') (5 div 2 + 1) =
     ([(demo_doc ''meeting_notes'' ''b'', 3 / 10)],
      [\<lparr>call_query = ustr ''q'', call_k = 3,
        call_filter = Some [(''document_type'', VStr (ustr ''meeting_notes''))]\<rparr>])"
  by (simp add: search_meeting_notes_def search_by_document_type_def search_similar_def
      demo_store_def ustr_def)

lemma demo_items:
  "fst (get_relevant_context demo_store (ustr ''q'') 5 (7 / 10)) =
     [to_context_item (demo_doc ''faq'' ''a'', 1 / 10),
      to_context_item (demo_doc ''meeting_notes'' ''b'', 3 / 10)]"
  by (simp add: get_relevant_context_def search_faqs_def search_meeting_notes_def
      search_by_document_type_def search_similar_def demo_store_def py_slice_to_def Let_def
      ustr_def)

lemma empty_items: "fst (get_relevant_context empty_store query n thr) = []"
  by (simp add: get_relevant_context_def search_faqs_def search_meeting_notes_def
      search_by_document_type_def search_similar_def empty_store_def py_slice_to_def Let_def)

lemma mean_nonneg:
  assumes "\<forall>i\<in>set items. 0 \<le> relevance_score i"
  shows "0 \<le> sum_list (map relevance_score items) / real (length items)"
proof -
  have "0 \<le> sum_list (map relevance_score items)"
    using assms by (intro sum_list_nonneg) auto
  then show ?thesis by simp
qed

text \<open>
  Claim C2, as the code has it. \<open>get_relevant_context\<close> sends two queries to the vector
  store, the first restricted to the document type \<open>faq\<close> and the second to
  \<open>meeting_notes\<close>, and each asks for \<open>max_chunks // 2 + 1\<close> entries: the floor of the
  half, not its ceiling.
\<close>

theorem request_sizes:
  "map (\<lambda>c. (call_filter c, call_k c)) (snd (get_relevant_context vs query max_chunks thr)) =
     [(Some [(''document_type'', VStr (ustr ''faq''))], max_chunks div 2 + 1),
      (Some [(''document_type'', VStr (ustr ''meeting_notes''))], max_chunks div 2 + 1)]"
  by (simp add: get_relevant_context_def search_faqs_def search_meeting_notes_def
      search_by_document_type_def search_similar_def Let_def)

text \<open>
  Claim C2 as stated fails at \<open>max_chunks = 5\<close>: both queries ask for 3 entries, and
  \<open>ceil(5/2) + 1\<close> is 4.
\<close>

theorem request_sizes_not_ceiling:
  "map call_k (snd (get_relevant_context demo_store (ustr ''q'') 5 (7 / 10))) = [3, 3] \<and>
   \<lceil>(5::real) / 2\<rceil> + 1 = (4::int)"
  by (simp add: get_relevant_context_def search_faqs_def search_meeting_notes_def
      search_by_document_type_def search_similar_def Let_def)

text \<open>
  Claim C3. For \<open>max_chunks \<ge> 0\<close>, the context items are the FAQ results followed by the
  meeting results, sorted by distance, without the entries whose distance exceeds the
  threshold, cut to the first \<open>max_chunks\<close>. The code cuts before it filters; on a sorted
  list the two orders give the same result. The sort is ascending and stable: the entries
  of any one distance \<open>d\<close> keep the order of the concatenation, FAQ results first.
\<close>

theorem retrieve_merge:
  assumes "0 \<le> max_chunks"
    and "search_faqs vs query (max_chunks div 2 + 1) = (faq_results, c1)"
    and "search_meeting_notes vs query (max_chunks div 2 + 1) = (meeting_results, c2)"
  shows "fst (get_relevant_context vs query max_chunks thr) =
           map to_context_item
             (take (nat max_chunks)
               (filter (\<lambda>r. snd r \<le> thr) (sort_key snd (faq_results @ meeting_results)))) \<and>
         sorted (map snd (sort_key snd (faq_results @ meeting_results))) \<and>
         filter (\<lambda>r. snd r = d) (sort_key snd (faq_results @ meeting_results)) =
           filter (\<lambda>r. snd r = d) faq_results @ filter (\<lambda>r. snd r = d) meeting_results"
proof -
  let ?all = "sort_key snd (faq_results @ meeting_results)"
  have s: "sorted (map snd ?all)" by (rule sorted_sort_key)
  have "fst (get_relevant_context vs query max_chunks thr) =
          map to_context_item (filter (\<lambda>r. snd r \<le> thr) (take (nat max_chunks) ?all))"
    using assms by (simp add: get_relevant_context_def py_slice_to_def Let_def)
  also have "\<dots> = map to_context_item (take (nat max_chunks) (filter (\<lambda>r. snd r \<le> thr) ?all))"
    by (simp add: filter_take_sorted [OF s])
  finally have a: "fst (get_relevant_context vs query max_chunks thr) =
     map to_context_item (take (nat max_chunks) (filter (\<lambda>r. snd r \<le> thr) ?all))" .
  have st: "filter (\<lambda>r. snd r = d) ?all =
           filter (\<lambda>r. snd r = d) faq_results @ filter (\<lambda>r. snd r = d) meeting_results"
    by (simp add: sort_key_stable)
  from a s st show ?thesis by blast
qed

text \<open>
  The scenario of claim C3: the distances 0.1 and 0.9 (FAQ) and 0.3 (meeting notes), the
  threshold 0.7 and \<open>max_chunks = 5\<close> give two items, with the scores 0.1 and 0.3.
\<close>

theorem retrieve_merge_witness:
  "map relevance_score (fst (get_relevant_context demo_store (ustr ''q'') 5 (7 / 10))) =
     [1 / 10, 3 / 10] \<and>
   map content (fst (get_relevant_context demo_store (ustr ''q'') 5 (7 / 10))) =
     [ustr ''a'', ustr ''b'']"
proof -
  have h: "(0::int) \<le> 5" by simp
  note r = retrieve_merge [OF h demo_faq demo_meeting, of "7 / 10" 0]
  from r have "fst (get_relevant_context demo_store (ustr ''q'') 5 (7 / 10)) =
     map to_context_item (take (nat 5) (filter (\<lambda>r. snd r \<le> 7 / 10)
        (sort_key snd ([(demo_doc ''faq'' ''a'', 1 / 10), (demo_doc ''faq'' ''c'', 9 / 10)] @
           [(demo_doc ''meeting_notes'' ''b'', 3 / 10)]))))"
    by blast
  then show ?thesis by (simp add: to_context_item_def demo_doc_def Let_def)
qed

text \<open>
  Claim C4. With \<open>items\<close> the context that retrieval returns: when it is empty the
  confidence of the answer is 0; when it is not empty and no distance is negative, the
  confidence is between 0 and 1, and it is \<open>max(0, 1 - mean)\<close> of the distances whenever
  the answer text was generated (an exception on the way gives the confidence 0).
  Distances are real numbers here: float rounding is not modelled.
\<close>

theorem confidence_estimate:
  assumes "fst (get_relevant_context vs q n (7 / 10)) = items"
  shows "(items = [] \<longrightarrow> confidence (answer_question vs generate now q n) = 0) \<and>
         (items \<noteq> [] \<and> (\<forall>i\<in>set items. 0 \<le> relevance_score i) \<longrightarrow>
            (\<forall>reply. generate items q = Inr reply \<longrightarrow>
               confidence (answer_question vs generate now q n) =
                 max 0 (1 - sum_list (map relevance_score items) / real (length items))) \<and>
            0 \<le> confidence (answer_question vs generate now q n) \<and>
            confidence (answer_question vs generate now q n) \<le> 1)"
proof (intro conjI impI allI)
  assume "items = []"
  with assms show "confidence (answer_question vs generate now q n) = 0"
    by (simp add: answer_question_def answer_body_def)
next
  fix reply
  assume "items \<noteq> [] \<and> (\<forall>i\<in>set items. 0 \<le> relevance_score i)"
    and "generate items q = Inr reply"
  with assms show "confidence (answer_question vs generate now q n) =
      max 0 (1 - sum_list (map relevance_score items) / real (length items))"
    by (simp add: answer_question_def answer_body_def Let_def)
next
  assume a: "items \<noteq> [] \<and> (\<forall>i\<in>set items. 0 \<le> relevance_score i)"
  with assms show "0 \<le> confidence (answer_question vs generate now q n)"
    by (cases "generate items q") (simp_all add: answer_question_def answer_body_def Let_def)
next
  assume a: "items \<noteq> [] \<and> (\<forall>i\<in>set items. 0 \<le> relevance_score i)"
  then have "0 \<le> sum_list (map relevance_score items) / real (length items)"
    using mean_nonneg by blast
  with a assms show "confidence (answer_question vs generate now q n) \<le> 1"
    by (cases "generate items q") (simp_all add: answer_question_def answer_body_def Let_def)
qed

text \<open>
  Claim C4 at two stores: an empty store gives the confidence 0, and the distances 0.1
  and 0.3 give \<open>1 - 0.2 = 0.8\<close>.
\<close>

theorem confidence_estimate_witness:
  "confidence (answer_question empty_store echo_generate (ustr ''t'') (ustr ''q'') 5) = 0 \<and>
   confidence (answer_question demo_store echo_generate (ustr ''t'') (ustr ''q'') 5) = 4 / 5"
proof -
  let ?items = "[to_context_item (demo_doc ''faq'' ''a'', 1 / 10),
                 to_context_item (demo_doc ''meeting_notes'' ''b'', 3 / 10)]"
  note e = confidence_estimate [OF empty_items, where generate = echo_generate
      and now = "ustr ''t''" and q = "ustr ''q''" and n = 5]
  note d = confidence_estimate [OF demo_items, where generate = echo_generate
      and now = "ustr ''t''"]
  have g: "echo_generate ?items (ustr ''q'') = Inr (ustr ''q'')"
    by (simp add: echo_generate_def)
  have nn: "\<forall>i\<in>set ?items. 0 \<le> relevance_score i"
    by (simp add: to_context_item_def Let_def)
  from e have "confidence (answer_question empty_store echo_generate (ustr ''t'') (ustr ''q'') 5) = 0"
    by blast
  moreover from d g nn
  have "confidence (answer_question demo_store echo_generate (ustr ''t'') (ustr ''q'') 5) =
     max 0 (1 - sum_list (map relevance_score ?items) / real (length ?items))"
    by blast
  then have "confidence (answer_question demo_store echo_generate (ustr ''t'') (ustr ''q'') 5) = 4 / 5"
    by (simp add: to_context_item_def Let_def)
  ultimately show ?thesis by blast
qed

text \<open>
  Claim C8. When retrieval returns no context item, the body of \<open>answer_question\<close> returns
  without an exception, and the answer is the fixed text with the confidence 0 and no
  sources, whatever the generator would do.
\<close>

theorem empty_context_answer:
  assumes "fst (get_relevant_context vs q n (7 / 10)) = []"
  shows "answer_body vs generate now q n =
           Inr \<lparr>answer = no_information_answer, sources = [], context_used = [],
                confidence = 0, question = q, timestamp = now\<rparr> \<and>
         answer_question vs generate now q n =
           \<lparr>answer = no_information_answer, sources = [], context_used = [],
            confidence = 0, question = q, timestamp = now\<rparr>"
  using assms by (simp add: answer_question_def answer_body_def)

theorem empty_context_answer_witness:
  "answer_question empty_store echo_generate (ustr ''t'') (ustr ''q'') 5 =
     \<lparr>answer = no_information_answer, sources = [], context_used = [],
      confidence = 0, question = ustr ''q'', timestamp = ustr ''t''\<rparr>"
  using empty_context_answer [OF empty_items, where generate = echo_generate
      and now = "ustr ''t''" and q = "ustr ''q''" and n = 5]
  by simp

section \<open>Text cleaning and section extraction: what is proved\<close>

declare m.simps [simp del]

declare findall_from.simps [simp del]

declare sub_from.simps [simp del]

lemma first_match_append:
  "first_match k (xs @ ys) = (case first_match k xs of Some y \<Rightarrow> Some y | None \<Rightarrow> first_match k ys)"
  by (induction xs) (auto split: option.splits)

lemma first_match_concat_map:
  "first_match k (concat (map f xs)) = first_match (\<lambda>x. first_match k (f x)) xs"
  by (induction xs) (auto simp: first_match_append split: option.splits)

lemma first_match_map: "first_match k (map g xs) = first_match (\<lambda>x. k (g x)) xs"
  by (induction xs) (auto split: option.splits)

lemma first_match_if: "first_match k (if c then xs else []) = (if c then first_match k xs else None)"
  by simp

lemma first_match_Some: "first_match Some xs = (case xs of [] \<Rightarrow> None | x # _ \<Rightarrow> Some x)"
  by (cases xs) auto

lemma fm_Sym:
  "first_match k (m fl db (Sym c) st) =
     (case m_rest st of
        [] \<Rightarrow> None
      | x # xs \<Rightarrow> if cls_match fl db c x then k (st\<lparr>m_prev := Some x, m_rest := xs\<rparr>) else None)"
  by (auto simp: m.simps split: list.splits option.splits)

lemma fm_Eps: "first_match k (m fl db Eps st) = k st"
  by (auto simp: m.simps split: option.splits)

lemma fm_Seq:
  "first_match k (m fl db (Seq a b) st) =
     first_match (\<lambda>s1. first_match k (m fl db b s1)) (m fl db a st)"
  by (simp add: m.simps first_match_concat_map)

lemma fm_Alt:
  "first_match k (m fl db (Alt a b) st) =
     (case first_match k (m fl db a st) of Some y \<Rightarrow> Some y | None \<Rightarrow> first_match k (m fl db b st))"
  by (simp add: m.simps first_match_append)

lemma fm_Star_greedy:
  "first_match k (m fl db (Star True r) st) =
     (case first_match (\<lambda>s1. if length (m_rest s1) < length (m_rest st)
                              then first_match k (m fl db (Star True r) s1) else None)
                       (m fl db r st) of
        Some y \<Rightarrow> Some y
      | None \<Rightarrow> k st)"
  by (subst m.simps) (simp add: first_match_append first_match_concat_map first_match_if
      split: option.splits)

lemma fm_Star_lazy:
  "first_match k (m fl db (Star False r) st) =
     (case k st of
        Some y \<Rightarrow> Some y
      | None \<Rightarrow> first_match (\<lambda>s1. if length (m_rest s1) < length (m_rest st)
                                   then first_match k (m fl db (Star False r) s1) else None)
                            (m fl db r st))"
  by (subst m.simps) (simp add: first_match_append first_match_concat_map first_match_if
      split: option.splits)

lemma fm_Group:
  "first_match k (m fl db (Group n r) st) =
     first_match (\<lambda>s1. k (s1\<lparr>m_caps := (n, take (length (m_rest st) - length (m_rest s1)) (m_rest st)) # m_caps s1\<rparr>))
       (m fl db r st)"
  by (simp add: m.simps first_match_map)

lemma fm_Look:
  "first_match k (m fl db (Look r) st) =
     (case first_match Some (m fl db r st) of
        None \<Rightarrow> None
      | Some s1 \<Rightarrow> k (st\<lparr>m_caps := m_caps s1\<rparr>))"
  by (auto simp: m.simps first_match_Some split: list.splits option.splits)

lemma fm_Bol:
  "first_match k (m fl db Bol st) =
     (if m_prev st = None \<or> (multiline fl \<and> m_prev st = Some 10) then k st else None)"
  by (auto simp: m.simps split: option.splits)

lemma fm_EndZ:
  "first_match k (m fl db EndZ st) = (if m_rest st = [] then k st else None)"
  by (auto simp: m.simps split: option.splits)

lemmas fm_simps = fm_Sym fm_Eps fm_Seq fm_Alt fm_Star_greedy fm_Star_lazy fm_Group fm_Look
  fm_Bol fm_EndZ

lemma findall_from_first:
  "findall_from fl db r n p s =
     (case first_match Some (m fl db r \<lparr>m_prev = p, m_rest = s, m_caps = []\<rparr>) of
        Some st \<Rightarrow>
          groups n (m_caps st) #
            (if length (m_rest st) < length s then findall_from fl db r n (m_prev st) (m_rest st)
             else (case s of [] \<Rightarrow> [] | c # cs \<Rightarrow> findall_from fl db r n (Some c) cs))
      | None \<Rightarrow> (case s of [] \<Rightarrow> [] | c # cs \<Rightarrow> findall_from fl db r n (Some c) cs))"
  by (subst findall_from.simps) (simp add: first_match_Some split: list.splits)

lemma run_Nil: "run fl db [] st = Some st"
  by simp

lemma run_Sym:
  "run fl db (FRe (Sym c) # ks) st =
     (case m_rest st of
        [] \<Rightarrow> None
      | x # xs \<Rightarrow> if cls_match fl db c x then run fl db ks (st\<lparr>m_prev := Some x, m_rest := xs\<rparr>)
                  else None)"
  by (simp add: fm_Sym)

lemma run_Eps: "run fl db (FRe Eps # ks) st = run fl db ks st"
  by (simp add: fm_Eps)

lemma run_Seq: "run fl db (FRe (Seq a b) # ks) st = run fl db (FRe a # FRe b # ks) st"
  by (simp add: fm_Seq)

lemma run_Alt:
  "run fl db (FRe (Alt a b) # ks) st =
     (case run fl db (FRe a # ks) st of Some y \<Rightarrow> Some y | None \<Rightarrow> run fl db (FRe b # ks) st)"
  by (simp add: fm_Alt split: option.splits)

lemma run_Star_greedy:
  "run fl db (FRe (Star True r) # ks) st =
     (case run fl db (FRe r # FLoop True r (length (m_rest st)) # ks) st of
        Some y \<Rightarrow> Some y
      | None \<Rightarrow> run fl db ks st)"
  by (simp add: fm_Star_greedy)

lemma run_Star_lazy:
  "run fl db (FRe (Star False r) # ks) st =
     (case run fl db ks st of
        Some y \<Rightarrow> Some y
      | None \<Rightarrow> run fl db (FRe r # FLoop False r (length (m_rest st)) # ks) st)"
  by (simp add: fm_Star_lazy split: option.splits)

lemma run_Loop:
  "run fl db (FLoop greedy r n # ks) st =
     (if length (m_rest st) < n then run fl db (FRe (Star greedy r) # ks) st else None)"
  by simp

lemma run_Group:
  "run fl db (FRe (Group n r) # ks) st = run fl db (FRe r # FCap n (m_rest st) # ks) st"
  by (simp add: fm_Group)

lemma run_Cap:
  "run fl db (FCap n s0 # ks) st =
     run fl db ks (st\<lparr>m_caps := (n, take (length s0 - length (m_rest st)) s0) # m_caps st\<rparr>)"
  by simp

lemma run_Look:
  "run fl db (FRe (Look r) # ks) st =
     (case run fl db [FRe r] st of
        None \<Rightarrow> None
      | Some s1 \<Rightarrow> run fl db ks (st\<lparr>m_caps := m_caps s1\<rparr>))"
proof -
  have "run fl db [FRe r] st = first_match Some (m fl db r st)"
    by simp
  then show ?thesis by (simp add: fm_Look)
qed

lemma run_Bol:
  "run fl db (FRe Bol # ks) st =
     (if m_prev st = None \<or> (multiline fl \<and> m_prev st = Some 10) then run fl db ks st else None)"
  by (simp add: fm_Bol)

lemma run_EndZ:
  "run fl db (FRe EndZ # ks) st = (if m_rest st = [] then run fl db ks st else None)"
  by (simp add: fm_EndZ)

lemmas run_simps = run_Nil run_Sym run_Eps run_Seq run_Alt run_Star_greedy run_Star_lazy
  run_Loop run_Group run_Cap run_Look run_Bol run_EndZ

declare run.simps [simp del]

lemma findall_from_run:
  "findall_from fl db r n p s =
     (case run fl db [FRe r] \<lparr>m_prev = p, m_rest = s, m_caps = []\<rparr> of
        Some st \<Rightarrow>
          groups n (m_caps st) #
            (if length (m_rest st) < length s then findall_from fl db r n (m_prev st) (m_rest st)
             else (case s of [] \<Rightarrow> [] | c # cs \<Rightarrow> findall_from fl db r n (Some c) cs))
      | None \<Rightarrow> (case s of [] \<Rightarrow> [] | c # cs \<Rightarrow> findall_from fl db r n (Some c) cs))"
  by (subst findall_from_first) (simp add: run.simps)

lemma groups_1: "groups 1 cs = [case map_of cs 1 of None \<Rightarrow> [] | Some s \<Rightarrow> s]"
  by (simp add: groups_def)

lemma groups_2:
  "groups 2 cs = [case map_of cs 1 of None \<Rightarrow> [] | Some s \<Rightarrow> s,
                  case map_of cs 2 of None \<Rightarrow> [] | Some s \<Rightarrow> s]"
proof -
  have "[1..<Suc 2] = [1, 2]" by (simp add: upt_rec)
  then show ?thesis by (simp add: groups_def)
qed

lemma sub_from_run:
  "sub_from fl db r repl p s =
     (case run fl db [FRe r] \<lparr>m_prev = p, m_rest = s, m_caps = []\<rparr> of
        Some st \<Rightarrow>
          repl @
            (if length (m_rest st) < length s then sub_from fl db r repl (m_prev st) (m_rest st)
             else (case s of [] \<Rightarrow> [] | c # cs \<Rightarrow> c # sub_from fl db r repl (Some c) cs))
      | None \<Rightarrow> (case s of [] \<Rightarrow> [] | c # cs \<Rightarrow> c # sub_from fl db r repl (Some c) cs))"
  by (subst sub_from.simps) (simp add: run.simps first_match_Some split: list.splits)

text \<open>What the substitution of a one-character pattern computes.\<close>

lemma sub_from_Sym:
  "sub_from fl db (Sym c) repl p s =
     concat (map (\<lambda>x. if cls_match fl db c x then repl else [x]) s)"
proof (induction s arbitrary: p)
  case Nil
  show ?case by (subst sub_from_run) (simp add: run_simps)
next
  case (Cons x xs)
  show ?case by (subst sub_from_run) (simp add: run_simps Cons)
qed

text \<open>A greedy star over one character class takes the longest run.\<close>

lemma run_Star_Sym:
  "\<exists>q. run fl db [FRe (Star True (Sym c))] st =
         Some (st\<lparr>m_prev := q, m_rest := dropWhile (cls_match fl db c) (m_rest st)\<rparr>)"
proof (induction "m_rest st" arbitrary: st)
  case Nil
  then have "m_rest st = []" by simp
  then have "run fl db [FRe (Star True (Sym c))] st = Some st"
    by (simp add: run_simps)
  moreover have "st = st\<lparr>m_prev := m_prev st, m_rest := dropWhile (cls_match fl db c) (m_rest st)\<rparr>"
    using \<open>m_rest st = []\<close> by simp
  ultimately show ?case by metis
next
  case (Cons x xs)
  then have r: "m_rest st = x # xs" by simp
  show ?case
  proof (cases "cls_match fl db c x")
    case True
    let ?s1 = "st\<lparr>m_prev := Some x, m_rest := xs\<rparr>"
    have "xs = m_rest ?s1" by simp
    from Cons.hyps(1) [OF this] obtain q where
      q: "run fl db [FRe (Star True (Sym c))] ?s1 =
            Some (?s1\<lparr>m_prev := q, m_rest := dropWhile (cls_match fl db c) (m_rest ?s1)\<rparr>)"
      by blast
    have "run fl db [FRe (Star True (Sym c))] st =
            Some (st\<lparr>m_prev := q, m_rest := dropWhile (cls_match fl db c) (m_rest st)\<rparr>)"
      using r True q by (simp add: run_simps)
    then show ?thesis by blast
  next
    case False
    with r have "run fl db [FRe (Star True (Sym c))] st = Some st"
      by (simp add: run_simps)
    moreover have "st = st\<lparr>m_prev := m_prev st, m_rest := dropWhile (cls_match fl db c) (m_rest st)\<rparr>"
      using r False by simp
    ultimately show ?thesis by metis
  qed
qed

lemma sub_from_spaces:
  "sub_from fl db (Plus True (Sym (Atom Space))) repl p s = collapse repl s"
proof (induction repl s arbitrary: p rule: collapse.induct)
  case (1 repl)
  show ?case by (subst sub_from_run) (simp add: run_simps)
next
  case (2 repl c cs)
  show ?case
  proof (cases "is_space c")
    case True
    let ?s1 = "\<lparr>m_prev = Some c, m_rest = cs, m_caps = []\<rparr>"
    obtain q where q: "run fl db [FRe (Star True (Sym (Atom Space)))] ?s1 =
        Some (?s1\<lparr>m_prev := q, m_rest := dropWhile (cls_match fl db (Atom Space)) (m_rest ?s1)\<rparr>)"
      using run_Star_Sym by blast
    have dw: "dropWhile (cls_match fl db (Atom Space)) cs = dropWhile is_space cs"
      by (rule arg_cong [where f = "\<lambda>P. dropWhile P cs"]) (auto simp: fun_eq_iff)
    have len: "length (dropWhile is_space cs) < Suc (length cs)"
      by (simp add: length_dropWhile_le less_Suc_eq_le)
    show ?thesis
      using True q dw len 2(1) [OF True]
      by (subst sub_from_run) (simp add: run_simps)
  next
    case False
    then show ?thesis
      using 2(2) [OF False]
      by (subst sub_from_run) (simp add: run_simps)
  qed
qed

lemma sub_from_blank_lines:
  "10 \<notin> set s \<Longrightarrow>
   sub_from no_flags db (seqs [NL, Star True (Sym (Atom Space)), NL]) repl p s = s"
proof (induction s arbitrary: p)
  case Nil
  show ?case by (subst sub_from_run) (simp add: run_simps)
next
  case (Cons x xs)
  then show ?case
    by (subst sub_from_run) (simp add: run_simps lit_match_def no_flags_def)
qed

lemma collapse_set: "set (collapse [32] s) \<subseteq> {c \<in> set s. \<not> is_space c} \<union> {32}"
proof (induction "[32::nat]" s rule: collapse.induct)
  case 1
  show ?case by simp
next
  case (2 c cs)
  have "set (dropWhile is_space cs) \<subseteq> set cs" by (rule set_dropWhileD [THEN subsetI])
  with 2 show ?case by (cases "is_space c") auto
qed

lemma collapse_no_newline: "10 \<notin> set (collapse [32] s)"
proof
  assume "10 \<in> set (collapse [32] s)"
  with collapse_set have "\<not> is_space 10 \<or> (10::nat) = 32" by blast
  then show False by (simp add: is_space_def)
qed

lemma collapse_head: "s = [] \<or> \<not> is_space (hd s) \<Longrightarrow>
  collapse [32] s = [] \<or> \<not> is_space (hd (collapse [32] s))"
  by (cases s) auto

lemma dropWhile_head: "s = [] \<or> \<not> P (hd s) \<Longrightarrow> dropWhile P s = s"
  by (cases s) auto

lemma dropWhile_head_not: "dropWhile P s = [] \<or> \<not> P (hd (dropWhile P s))"
  by (induction s) auto

lemma collapse_idem: "collapse [32] (collapse [32] s) = collapse [32] s"
proof (induction "[32::nat]" s rule: collapse.induct)
  case 1
  show ?case by simp
next
  case (2 c cs)
  show ?case
  proof (cases "is_space c")
    case True
    let ?d = "dropWhile is_space cs"
    have "collapse [32] ?d = [] \<or> \<not> is_space (hd (collapse [32] ?d))"
      by (rule collapse_head) (rule dropWhile_head_not)
    then have "dropWhile is_space (collapse [32] ?d) = collapse [32] ?d"
      by (rule dropWhile_head)
    moreover have "is_space 32" by (simp add: is_space_def)
    ultimately show ?thesis using True 2(1) [OF True] by simp
  next
    case False
    then show ?thesis using 2(2) [OF False] by simp
  qed
qed

lemma compile_special: "compile_set special_pattern = Inr special_set"
  by (simp add: compile_set_def special_pattern_def special_set_def ustr_def esc_def item_def
      class_escape_def ascii_alnum_def Let_def)

lemma compile_double_quote: "compile_set double_quote_pattern = Inr (OneOf [Lit 34, Lit 34])"
  by (simp add: compile_set_def double_quote_pattern_def ustr_def item_def Let_def)

lemma compile_single_quote: "compile_set single_quote_pattern = Inl unterminated_set"
  by (simp add: compile_set_def single_quote_pattern_def ustr_def item_def Let_def)

lemma special_set_match: "cls_match no_flags db special_set c = (\<not> allowed_char db c)"
  by (auto simp: special_set_def allowed_char_def punctuation_def ustr_def lit_match_def
      no_flags_def)

lemma concat_filter: "concat (map (\<lambda>x. if P x then [] else [x]) s) = filter (\<lambda>x. \<not> P x) s"
  by (induction s) auto

lemma concat_same: "concat (map (\<lambda>x. if P x then [k] else [x]) s) = map (\<lambda>x. if P x then k else x) s"
  by (induction s) auto

lemma clean_steps_eq:
  "clean_steps db s = Inr (filter (allowed_char db) (collapse [32] s))"
proof -
  have t1: "re_sub no_flags db (Plus True (Sym (Atom Space))) (ustr '' '') s = collapse [32] s"
    by (simp add: re_sub_def sub_from_spaces ustr_def)
  have t2: "re_sub no_flags db (seqs [NL, Star True (Sym (Atom Space)), NL]) [10] (collapse [32] s) =
      collapse [32] s"
    unfolding re_sub_def by (rule sub_from_blank_lines) (rule collapse_no_newline)
  have t3: "re_sub_set no_flags db special_pattern [] t = Inr (filter (allowed_char db) t)" for t
    by (simp add: re_sub_set_def compile_special re_sub_def sub_from_Sym concat_filter
        special_set_match)
  have t4: "re_sub_set no_flags db double_quote_pattern [34] t = Inr t" for t
  proof -
    have "map (\<lambda>x. if cls_match no_flags db (OneOf [Lit 34, Lit 34]) x then 34 else x) t = t"
      by (induction t) (auto simp: lit_match_def no_flags_def)
    then show ?thesis
      by (simp add: re_sub_set_def compile_double_quote re_sub_def sub_from_Sym concat_same)
  qed
  show ?thesis
    unfolding clean_steps_def Let_def t1 t2 by (simp add: t3 t4)
qed

lemma clean_text_error: "clean_text db s = Inl unterminated_set"
  by (simp add: clean_text_def clean_steps_eq re_sub_set_def compile_single_quote)

lemma clean_steps_fixed:
  assumes "\<forall>c\<in>set s. allowed_char db c"
  shows "clean_steps db s = Inr (collapse [32] s) \<and>
         clean_steps db (collapse [32] s) = Inr (collapse [32] s)"
proof -
  have "allowed_char db 32" by (simp add: allowed_char_def is_space_def)
  with assms collapse_set have "\<forall>c\<in>set (collapse [32] s). allowed_char db c" by blast
  then have "filter (allowed_char db) (collapse [32] s) = collapse [32] s" by simp
  then show ?thesis by (simp add: clean_steps_eq collapse_idem)
qed

lemmas eval_simps = findall_def findall_from_run run_simps ustr_def groups_1 groups_2 is_space_def
  lit_match_def

lemma in_Seq:
  "s2 \<in> set (m fl db (Seq a b) st) \<longleftrightarrow> (\<exists>s1\<in>set (m fl db a st). s2 \<in> set (m fl db b s1))"
  by (auto simp: m.simps)

lemma in_Sym:
  "s1 \<in> set (m fl db (Sym c) st) \<longleftrightarrow>
     (\<exists>x xs. m_rest st = x # xs \<and> cls_match fl db c x \<and> s1 = st\<lparr>m_prev := Some x, m_rest := xs\<rparr>)"
  by (cases "m_rest st") (auto simp: m.simps)

lemma in_Alt:
  "s1 \<in> set (m fl db (Alt a b) st) \<longleftrightarrow> s1 \<in> set (m fl db a st) \<or> s1 \<in> set (m fl db b st)"
  by (auto simp: m.simps)

lemma in_Group:
  "s2 \<in> set (m fl db (Group n r) st) \<Longrightarrow> \<exists>s1\<in>set (m fl db r st). m_rest s2 = m_rest s1"
  by (auto simp: m.simps)

lemma in_Bol:
  "s1 \<in> set (m fl db Bol st) \<longleftrightarrow>
     s1 = st \<and> (m_prev st = None \<or> (multiline fl \<and> m_prev st = Some 10))"
  by (auto simp: m.simps)

lemma in_Star:
  "s1 \<in> set (m fl db (Star g r) st) \<longleftrightarrow>
     s1 = st \<or> (\<exists>s'\<in>set (m fl db r st). length (m_rest s') < length (m_rest st) \<and>
                   s1 \<in> set (m fl db (Star g r) s'))"
  by (subst m.simps) (auto simp: Let_def split: if_splits)

lemma m_suffix: "s1 \<in> set (m fl db r st) \<Longrightarrow> \<exists>pre. m_rest st = pre @ m_rest s1"
proof (induction fl db r st arbitrary: s1 rule: m.induct)
  case (1 fl db c st)
  then show ?case by (auto simp: in_Sym)
next
  case (2 fl db st)
  then show ?case by (simp add: m.simps)
next
  case (3 fl db a b st)
  from 3(3) obtain s0 where s0: "s0 \<in> set (m fl db a st)" "s1 \<in> set (m fl db b s0)"
    by (auto simp: in_Seq)
  from 3(1) [OF s0(1)] obtain p0 where "m_rest st = p0 @ m_rest s0" by blast
  moreover from 3(2) [OF s0(1) s0(2)] obtain p1 where "m_rest s0 = p1 @ m_rest s1" by blast
  ultimately have "m_rest st = (p0 @ p1) @ m_rest s1" by simp
  then show ?case by blast
next
  case (4 fl db a b st)
  then show ?case by (auto simp: in_Alt)
next
  case (5 fl db g r st)
  from 5(3) consider "s1 = st"
    | s' where "s' \<in> set (m fl db r st)" "length (m_rest s') < length (m_rest st)"
        "s1 \<in> set (m fl db (Star g r) s')"
    by (subst (asm) in_Star) blast
  then show ?case
  proof cases
    case 1
    then show ?thesis by simp
  next
    case 2
    from 5(1) [OF 2(1)] obtain p0 where "m_rest st = p0 @ m_rest s'" by blast
    moreover from 5(2) [OF 2(1) 2(2) 2(3)] obtain p1 where "m_rest s' = p1 @ m_rest s1" by blast
    ultimately have "m_rest st = (p0 @ p1) @ m_rest s1" by simp
    then show ?thesis by blast
  qed
next
  case (6 fl db n r st)
  from in_Group [OF 6(2)] obtain s0 where "s0 \<in> set (m fl db r st)" "m_rest s1 = m_rest s0"
    by blast
  with 6(1) show ?case by auto
next
  case (7 fl db r st)
  then have "m_rest s1 = m_rest st" by (auto simp: m.simps split: list.splits)
  then show ?case by simp
next
  case (8 fl db st)
  then show ?case by (auto simp: in_Bol)
next
  case (9 fl db st)
  then show ?case by (auto simp: m.simps split: if_splits)
qed

lemma star_space:
  "s1 \<in> set (m fl db (Star g (Sym (Atom Space))) st) \<Longrightarrow>
   \<exists>ws. m_rest st = ws @ m_rest s1 \<and> (\<forall>c\<in>set ws. is_space c)"
proof (induction "m_rest st" arbitrary: st)
  case Nil
  then have "s1 = st" by (subst (asm) in_Star) (auto simp: in_Sym)
  then show ?case by simp
next
  case (Cons x xs)
  from Cons.prems consider "s1 = st"
    | s' where "s' \<in> set (m fl db (Sym (Atom Space)) st)"
        "s1 \<in> set (m fl db (Star g (Sym (Atom Space))) s')"
    by (subst (asm) in_Star) blast
  then show ?case
  proof cases
    case 1
    then show ?thesis by simp
  next
    case 2
    from 2(1) Cons.hyps(2) have s': "is_space x" "m_rest s' = xs"
      by (auto simp: in_Sym)
    then have "xs = m_rest s'" by simp
    from Cons.hyps(1) [OF this 2(2)] obtain ws where
      "m_rest s' = ws @ m_rest s1" "\<forall>c\<in>set ws. is_space c" by blast
    with s' Cons.hyps(2) have "m_rest st = (x # ws) @ m_rest s1 \<and> (\<forall>c\<in>set (x # ws). is_space c)"
      by simp
    then show ?thesis by blast
  qed
qed

lemma question_line_intro:
  "\<forall>c\<in>set ws. is_space c \<Longrightarrow> has_question_line (pre @ 63 # ws @ 10 # post)"
proof (induction pre)
  case Nil
  have "is_space 10" by (simp add: is_space_def)
  with Nil show ?case by (simp add: takeWhile_append2)
next
  case (Cons a pre)
  then show ?case by simp
qed

lemma faq_no_match:
  assumes "\<not> has_question_line (m_rest st)"
  shows "m faq_flags db faq_pattern st = []"
proof (rule ccontr)
  assume "m faq_flags db faq_pattern st \<noteq> []"
  then obtain s where "s \<in> set (m faq_flags db faq_pattern st)"
    by (cases "m faq_flags db faq_pattern st") auto
  then obtain s1 s2 s3 s4 where
    s1: "s1 \<in> set (m faq_flags db (Alt Bol NL) st)" and
    s2: "s2 \<in> set (m faq_flags db (Group 1 (Seq (Plus True (Sym Dot)) (Chr CHR ''?''))) s1)" and
    s3: "s3 \<in> set (m faq_flags db (Star True (Sym (Atom Space))) s2)" and
    s4: "s4 \<in> set (m faq_flags db NL s3)"
    unfolding faq_pattern_def seqs.simps in_Seq by blast
  from m_suffix [OF s1] obtain p0 where p0: "m_rest st = p0 @ m_rest s1" by blast
  from in_Group [OF s2] obtain s2' where
    s2': "s2' \<in> set (m faq_flags db (Seq (Plus True (Sym Dot)) (Chr CHR ''?'')) s1)"
      "m_rest s2 = m_rest s2'" by blast
  from s2'(1) obtain s2'' where
    s2'': "s2'' \<in> set (m faq_flags db (Plus True (Sym Dot)) s1)"
      "s2' \<in> set (m faq_flags db (Chr CHR ''?'') s2'')"
    unfolding in_Seq [of s2' _ _ "Plus True (Sym Dot)"] by blast
  from m_suffix [OF s2''(1)] obtain p1 where p1: "m_rest s1 = p1 @ m_rest s2''" by blast
  from s2''(2) have q: "m_rest s2'' = 63 # m_rest s2'"
    by (auto simp: in_Sym lit_match_def faq_flags_def)
  from star_space [OF s3] obtain ws where
    ws: "m_rest s2 = ws @ m_rest s3" "\<forall>c\<in>set ws. is_space c" by blast
  from s4 have nl: "m_rest s3 = 10 # m_rest s4"
    by (auto simp: in_Sym lit_match_def faq_flags_def)
  have "m_rest st = (p0 @ p1) @ 63 # ws @ 10 # m_rest s4"
    using p0 p1 q s2'(2) ws(1) nl by simp
  with question_line_intro [OF ws(2)] have "has_question_line (m_rest st)" by metis
  with assms show False by simp
qed

lemma findall_faq_none:
  "\<not> has_question_line s \<Longrightarrow> findall_from faq_flags db faq_pattern n p s = []"
proof (induction s arbitrary: p)
  case Nil
  then show ?case by (subst findall_from.simps) (simp add: faq_no_match)
next
  case (Cons c cs)
  then show ?case by (subst findall_from.simps) (simp add: faq_no_match)
qed

lemma lits_Q:
  "s2 \<in> set (m faq_flags db (lits ''Q:'') s1) \<Longrightarrow> take 2 (m_rest s1) = ustr ''Q:''"
  by (auto simp: lits_def in_Seq in_Sym lit_match_def faq_flags_def ustr_def)

lemma lits_Question:
  "s2 \<in> set (m faq_flags db (lits ''Question:'') s1) \<Longrightarrow> take 9 (m_rest s1) = ustr ''Question:''"
  by (auto simp: lits_def in_Seq in_Sym lit_match_def faq_flags_def ustr_def)

lemma lits_A:
  "s2 \<in> set (m faq_flags db (lits ''A:'') s1) \<Longrightarrow> take 2 (m_rest s1) = ustr ''A:''"
  by (auto simp: lits_def in_Seq in_Sym lit_match_def faq_flags_def ustr_def)

lemma lits_Answer:
  "s2 \<in> set (m faq_flags db (lits ''Answer:'') s1) \<Longrightarrow> take 7 (m_rest s1) = ustr ''Answer:''"
  by (auto simp: lits_def in_Seq in_Sym lit_match_def faq_flags_def ustr_def)

lemma label_start_Nil: "\<not> label_start []"
  by (simp add: label_start_def ustr_def)

lemma answer_line_intro: "answer_label_start post \<Longrightarrow> answer_line_after (pre @ 10 # post)"
  by (induction pre) auto

lemma qa_no_match:
  assumes "\<not> has_label_pair (m_prev st) (m_rest st)"
  shows "m faq_flags db qa_pattern st = []"
proof (rule ccontr)
  assume "m faq_flags db qa_pattern st \<noteq> []"
  then obtain s where "s \<in> set (m faq_flags db qa_pattern st)"
    by (cases "m faq_flags db qa_pattern st") auto
  then obtain s1 s2 s3 s4 s5 s6 where
    s1: "s1 \<in> set (m faq_flags db (Alt Bol NL) st)" and
    s2: "s2 \<in> set (m faq_flags db (Alt (lits ''Q:'') (lits ''Question:'')) s1)" and
    s3: "s3 \<in> set (m faq_flags db (Star True (Sym (Atom Space))) s2)" and
    s4: "s4 \<in> set (m faq_flags db (Group 1 (Plus False (Sym Dot))) s3)" and
    s5: "s5 \<in> set (m faq_flags db NL s4)" and
    s6: "s6 \<in> set (m faq_flags db (Alt (lits ''A:'') (lits ''Answer:'')) s5)"
    unfolding qa_pattern_def seqs.simps in_Seq by blast
  from s2 have lab: "label_start (m_rest s1)"
    unfolding in_Alt label_start_def using lits_Q lits_Question by blast
  from s6 have ans: "answer_label_start (m_rest s5)"
    unfolding in_Alt answer_label_start_def using lits_A lits_Answer by blast
  from m_suffix [OF s2] obtain a where a: "m_rest s1 = a @ m_rest s2" by blast
  from m_suffix [OF s3] obtain b where b: "m_rest s2 = b @ m_rest s3" by blast
  from m_suffix [OF s4] obtain c where c: "m_rest s3 = c @ m_rest s4" by blast
  from s5 have nl: "m_rest s4 = 10 # m_rest s5"
    by (auto simp: in_Sym lit_match_def faq_flags_def)
  have "m_rest s1 = (a @ b @ c) @ 10 # m_rest s5"
    using a b c nl by simp
  with answer_line_intro [OF ans] have after: "answer_line_after (m_rest s1)" by metis
  from s1 consider "s1 = st" "m_prev st = None \<or> m_prev st = Some 10"
    | "m_rest st = 10 # m_rest s1" "m_prev s1 = Some 10"
    by (auto simp: in_Alt in_Bol in_Sym lit_match_def faq_flags_def)
  then have "has_label_pair (m_prev st) (m_rest st)"
  proof cases
    case 1
    with lab after show ?thesis by (cases "m_rest st") (auto simp: label_start_Nil)
  next
    case 2
    with lab after have "has_label_pair (Some 10) (m_rest s1)"
      by (cases "m_rest s1") (auto simp: label_start_Nil)
    with 2 show ?thesis by simp
  qed
  with assms show False by simp
qed

lemma findall_qa_none:
  "\<not> has_label_pair p s \<Longrightarrow> findall_from faq_flags db qa_pattern n p s = []"
proof (induction s arbitrary: p)
  case Nil
  then show ?case by (subst findall_from.simps) (simp add: qa_no_match)
next
  case (Cons c cs)
  then show ?case by (subst findall_from.simps) (simp add: qa_no_match)
qed

text \<open>
  Claim C7. \<open>extract_sections\<close> returns at least one section for every text and every
  document type. For the type \<open>faq\<close>, a text with no question line and no label pair gives
  one section: general, titled \<open>FAQ Content\<close>, with the whole text as its content. A
  question line is a question mark followed by a newline with nothing but whitespace
  between (\<open>question_line_intro\<close>, \<open>question_line_elim\<close>): a line that ends in a question
  mark, trailing whitespace aside. A label pair is a line that starts with \<open>Q:\<close> or
  \<open>Question:\<close> and a later line that starts with \<open>A:\<close> or \<open>Answer:\<close>.
\<close>

theorem sections_never_empty:
  "extract_sections db s doc_type \<noteq> [] \<and>
   (\<not> has_question_line s \<and> \<not> has_label_pair None s \<longrightarrow>
      extract_sections db s (ustr ''faq'') = [general_section s ''FAQ Content''])"
proof (intro conjI impI)
  show "extract_sections db s doc_type \<noteq> []"
    by (simp add: extract_sections_def extract_faq_sections_def extract_meeting_sections_def
        Let_def)
next
  assume "\<not> has_question_line s \<and> \<not> has_label_pair None s"
  then have "findall faq_flags db faq_pattern 2 s = []" "findall faq_flags db qa_pattern 2 s = []"
    by (simp_all add: findall_def findall_faq_none findall_qa_none)
  then show "extract_sections db s (ustr ''faq'') = [general_section s ''FAQ Content'']"
    by (simp add: extract_sections_def extract_faq_sections_def)
qed

text \<open>
  Claim C7 on a text with a question mark inside a line and a \<open>Q:\<close> line that no
  \<open>A:\<close> line follows: one general section.
\<close>

theorem sections_never_empty_witness:
  "extract_sections ascii_db (ustr ''Q: Is it? yes.\<newline>No answer label'') (ustr ''faq'') =
     [\<lparr>sec_content = ustr ''Q: Is it? yes.\<newline>No answer label'', sec_type = ustr ''general'',
       sec_title = ustr ''FAQ Content'', sec_qa = None\<rparr>]"
proof -
  have "\<not> has_question_line (ustr ''Q: Is it? yes.\<newline>No answer label'') \<and>
        \<not> has_label_pair None (ustr ''Q: Is it? yes.\<newline>No answer label'')"
    by (simp add: ustr_def is_space_def label_start_def answer_label_start_def)
  with sections_never_empty [of ascii_db "ustr ''Q: Is it? yes.\<newline>No answer label''" "ustr ''faq''"]
  show ?thesis by (simp add: general_section_def)
qed

lemma question_line_elim:
  "has_question_line s \<Longrightarrow>
   \<exists>pre ws post. s = pre @ 63 # ws @ 10 # post \<and> (\<forall>c\<in>set ws. is_space c)"
proof (induction s)
  case Nil
  then show ?case by simp
next
  case (Cons c cs)
  show ?case
  proof (cases "c = 63 \<and> 10 \<in> set (takeWhile is_space cs)")
    case True
    then obtain ws post where w: "takeWhile is_space cs = ws @ 10 # post"
      by (meson split_list)
    have "\<forall>x\<in>set (takeWhile is_space cs). is_space x" by (meson set_takeWhileD)
    with w have sp: "\<forall>x\<in>set ws. is_space x" by simp
    have "cs = takeWhile is_space cs @ dropWhile is_space cs" by simp
    with w have "cs = ws @ 10 # (post @ dropWhile is_space cs)" by simp
    with True have "c # cs = [] @ 63 # ws @ 10 # (post @ dropWhile is_space cs)" by simp
    with sp show ?thesis by blast
  next
    case False
    with Cons.prems have "has_question_line cs" by auto
    from Cons.IH [OF this] obtain pre ws post where
      "cs = pre @ 63 # ws @ 10 # post" "\<forall>c\<in>set ws. is_space c" by blast
    then have "c # cs = (c # pre) @ 63 # ws @ 10 # post" by simp
    with \<open>\<forall>c\<in>set ws. is_space c\<close> show ?thesis by blast
  qed
qed

text \<open>
  Claim C1, as the code has it. \<open>clean_steps\<close> is the text that \<open>clean_text\<close> has
  computed when it reaches line 42. A second pass of these substitutions can still change
  the text, and a third cannot. On a text whose characters are all word characters,
  whitespace or the punctuation that line 38 keeps, the second pass changes nothing.
\<close>

theorem clean_steps_idempotent:
  "(\<exists>t u. clean_steps db s = Inr t \<and> clean_steps db t = Inr u \<and> clean_steps db u = Inr u) \<and>
   ((\<forall>c\<in>set s. allowed_char db c) \<longrightarrow>
      (\<exists>t. clean_steps db s = Inr t \<and> clean_steps db t = Inr t))"
proof (intro conjI impI)
  let ?t = "filter (allowed_char db) (collapse [32] s)"
  have "\<forall>c\<in>set ?t. allowed_char db c" by simp
  from clean_steps_fixed [OF this] clean_steps_eq [of db s]
  show "\<exists>t u. clean_steps db s = Inr t \<and> clean_steps db t = Inr u \<and> clean_steps db u = Inr u"
    by blast
next
  assume "\<forall>c\<in>set s. allowed_char db c"
  from clean_steps_fixed [OF this]
  show "\<exists>t. clean_steps db s = Inr t \<and> clean_steps db t = Inr t" by blast
qed

lemmas clean_eval = clean_steps_eq ustr_def is_space_def allowed_char_def is_word_def
  ascii_alnum_def punctuation_def ascii_db_def

text \<open>Claim C1 on a text of allowed characters: the first pass is a fixed point.\<close>

theorem clean_steps_idempotent_witness:
  "clean_steps ascii_db (ustr ''a,  b\<newline>c'') = Inr (ustr ''a, b c'') \<and>
   clean_steps ascii_db (ustr ''a, b c'') = Inr (ustr ''a, b c'')"
proof -
  have a: "\<forall>c\<in>set (ustr ''a,  b\<newline>c''). allowed_char ascii_db c"
    by (simp add: clean_eval)
  have e: "clean_steps ascii_db (ustr ''a,  b\<newline>c'') = Inr (ustr ''a, b c'')"
    by (simp add: clean_eval)
  from clean_steps_idempotent [of ascii_db "ustr ''a,  b\<newline>c''"] a
  obtain t where "clean_steps ascii_db (ustr ''a,  b\<newline>c'') = Inr t" "clean_steps ascii_db t = Inr t"
    by blast
  with e show ?thesis by simp
qed

text \<open>
  Claim C1 as stated fails at \<open>a ; b\<close>. The semicolon is deleted after the whitespace was
  collapsed, which leaves two spaces; a second pass collapses them. \<open>clean_text\<close> itself
  returns no text to compare: it raises \<open>re.error\<close>.
\<close>

theorem clean_not_idempotent:
  "clean_steps ascii_db (ustr ''a ; b'') = Inr (ustr ''a  b'') \<and>
   clean_steps ascii_db (ustr ''a  b'') = Inr (ustr ''a b'') \<and>
   clean_text ascii_db (ustr ''a ; b'') = Inl unterminated_set"
  by (simp add: clean_eval clean_text_error)

text \<open>
  Claim C9 on the code. \<open>clean_text\<close> raises \<open>re.error\<close> on every text, because the
  pattern of line 42 is \<^verbatim>\<open>[]\<close>, a character set that is not closed. Before that line
  the curly quotes are already gone: line 38 deletes them, double (U+201C, U+201D) and
  single (U+2018, U+2019), since they are outside the set it keeps.
\<close>

theorem quotes_not_normalized:
  "clean_text db s = Inl unterminated_set \<and>
   clean_steps ascii_db [8220, 104, 105, 8221] = Inr [104, 105] \<and>
   clean_steps ascii_db [8216, 104, 105, 8217] = Inr [104, 105]"
  by (simp add: clean_eval clean_text_error)

text \<open>
  Claim C10 on the code. The text that reaches line 42 holds no newline, for every input.
  \<open>clean_text\<close> then raises, so it has no output, and \<open>process_document\<close> raises with it:
  section extraction receives no text.
\<close>

theorem cleaning_single_line:
  "(\<exists>t. clean_steps db s = Inr t \<and> 10 \<notin> set t) \<and>
   clean_text db s = Inl unterminated_set \<and>
   process_document db split_text count_tokens d = Inl unterminated_set"
proof -
  have "10 \<notin> set (filter (allowed_char db) (collapse [32] s))"
    using collapse_no_newline [of s] by simp
  then show ?thesis
    by (simp add: clean_steps_eq clean_text_error process_document_def Let_def)
qed

text \<open>
  Claim C6 on the code. On the text of the scenario the FAQ pattern matches once: under
  \<open>re.DOTALL\<close> the question group runs over the line ends to the last question mark that
  ends a line. The result is one section: its question is the text up to the second
  question mark, four lines long, and its answer is \<open>Z is W.\<close>
\<close>

theorem faq_scenario_one_section:
  "extract_faq_sections db (ustr ''What is X?\<newline>X is Y.\<newline>\<newline>What is Z?\<newline>Z is W.'') =
     [\<lparr>sec_content = ustr ''Q: What is X?\<newline>X is Y.\<newline>\<newline>What is Z?\<newline>A: Z is W.'',
       sec_type = ustr ''faq'',
       sec_title = ustr ''What is X?\<newline>X is Y.\<newline>\<newline>What is Z?'',
       sec_qa = Some (ustr ''What is X?\<newline>X is Y.\<newline>\<newline>What is Z?'', ustr ''Z is W.'')\<rparr>]"
  by (simp add: extract_faq_sections_def faq_section_def strip_def eval_simps faq_pattern_def
      faq_flags_def Let_def)

end
